theory Spec2Isabelle
  imports Complex_Main
begin

section \<open>Python values, exceptions and the numerical library\<close>

text \<open>
  The functions of \<^verbatim>\<open>predict_sad.py\<close> and \<^verbatim>\<open>compare.py\<close> are modelled as
  HOL functions. A Python \<^verbatim>\<open>int\<close> is an \<open>int\<close>, a float is a \<open>real\<close> (rounding,
  infinities and NaN are not represented), a numpy array or a list is a list.
  A raised exception is the left injection of a sum type.
\<close>

datatype error =
  AssertionError | ValueError | ZeroDivisionError | UnboundLocalError | RootError

definition bind_result :: "error + 'a \<Rightarrow> ('a \<Rightarrow> error + 'b) \<Rightarrow> error + 'b" where
  "bind_result r f = (case r of Inl e \<Rightarrow> Inl e | Inr x \<Rightarrow> f x)"

text \<open>A loop or comprehension whose body may raise: the first exception ends it.\<close>

fun map_result :: "('a \<Rightarrow> error + 'b) \<Rightarrow> 'a list \<Rightarrow> error + 'b list" where
  "map_result f [] = Inr []"
| "map_result f (x # xs) =
     (case f x of
        Inl e \<Rightarrow> Inl e
      | Inr y \<Rightarrow> (case map_result f xs of Inl e \<Rightarrow> Inl e | Inr ys \<Rightarrow> Inr (y # ys)))"

text \<open>
  An argument of the comparison functions is "array-like": a bare number or a sequence.
  \<^verbatim>\<open>cnvrt_to_arrays\<close> tries \<^verbatim>\<open>len(arg)\<close>; a sequence becomes an array, and a
  number (for which \<^verbatim>\<open>len\<close> raises) becomes an array of one element.
\<close>

datatype pyarg = Scalar real | Seq "real list"

fun cnvrt_to_arrays :: "pyarg \<Rightarrow> real list" where
  "cnvrt_to_arrays (Seq xs) = xs"
| "cnvrt_to_arrays (Scalar x) = [x]"

text \<open>Python's built-in \<^verbatim>\<open>sum\<close> adds from the left, starting at 0.\<close>

definition py_sum :: "real list \<Rightarrow> real" where
  "py_sum xs = foldl (+) 0 xs"

text \<open>
  Division of two Python floats raises \<^verbatim>\<open>ZeroDivisionError\<close> on a zero divisor
  (the modules import \<^verbatim>\<open>division\<close> from \<^verbatim>\<open>__future__\<close>, so \<^verbatim>\<open>/\<close> on
  integers is true division as well). Division of numpy arrays does not raise.
\<close>

definition py_div :: "real \<Rightarrow> real \<Rightarrow> error + real" where
  "py_div a b = (if b = 0 then Inl ZeroDivisionError else Inr (a / b))"

text \<open>
  The routines of \<^verbatim>\<open>math\<close>, \<^verbatim>\<open>scipy.optimize\<close>, \<^verbatim>\<open>scipy.integrate\<close> and
  \<^verbatim>\<open>scipy.stats\<close> that the modules call are not part of the repository. They are
  the fields of a record that every modelled function takes as its first argument:
  \<^item> \<open>math_log\<close>: the value of \<^verbatim>\<open>math.log\<close> (and \<^verbatim>\<open>np.log\<close>) on a positive float;
  \<^item> \<open>math_lgamma\<close>: the value of \<^verbatim>\<open>math.lgamma\<close> on a positive integer;
  \<^item> \<open>brentq\<close>: \<^verbatim>\<open>scipy.optimize.brentq(f, a, b)\<close>, which returns a root or raises;
  \<^item> \<open>quad\<close>: the first component of \<^verbatim>\<open>integrate.quad(f, -inf, inf)\<close>;
  \<^item> \<open>fmin1\<close>, \<open>fmin2\<close>: \<^verbatim>\<open>scipy.optimize.fmin\<close> on one and on two parameters;
  \<^item> \<open>chisqprob\<close>: \<^verbatim>\<open>stats.chisqprob(statistic, df)\<close>, the chi-squared survival
    function;
  \<^item> \<open>logser_pmf\<close>, \<open>nbinom_pmf\<close>: \<^verbatim>\<open>stats.logser.pmf(k, x)\<close> and
    \<^verbatim>\<open>stats.nbinom.pmf(n, k, p)\<close> at one point.
  The exponential, the square root and \<open>\<pi>\<close> are the real ones.
\<close>

record numlib =
  math_log :: "real \<Rightarrow> real"
  math_lgamma :: "int \<Rightarrow> real"
  brentq :: "(real \<Rightarrow> error + real) \<Rightarrow> real \<Rightarrow> real \<Rightarrow> error + real"
  quad :: "(real \<Rightarrow> real) \<Rightarrow> real"
  fmin1 :: "(real \<Rightarrow> error + real) \<Rightarrow> real \<Rightarrow> error + real"
  fmin2 :: "(real \<times> real \<Rightarrow> error + real) \<Rightarrow> real \<times> real \<Rightarrow> error + real \<times> real"
  chisqprob :: "real \<Rightarrow> real \<Rightarrow> real"
  logser_pmf :: "real \<Rightarrow> real \<Rightarrow> real"
  nbinom_pmf :: "real \<Rightarrow> real \<Rightarrow> real \<Rightarrow> real"

text \<open>
  \<^verbatim>\<open>math.log\<close> raises \<^verbatim>\<open>ValueError\<close> outside the positive numbers, and
  \<^verbatim>\<open>math.lgamma\<close> at the poles 0, -1, -2, ... of the gamma function. \<^verbatim>\<open>np.log\<close>
  does not raise.
\<close>

definition m_log :: "numlib \<Rightarrow> real \<Rightarrow> error + real" where
  "m_log L x = (if x \<le> 0 then Inl ValueError else Inr (math_log L x))"

definition m_lgamma :: "numlib \<Rightarrow> int \<Rightarrow> error + real" where
  "m_lgamma L k = (if k \<le> 0 then Inl ValueError else Inr (math_lgamma L k))"

definition np_log :: "numlib \<Rightarrow> real \<Rightarrow> real" where
  "np_log L x = math_log L x"

subsection \<open>numpy arrays\<close>

text \<open>
  \<^verbatim>\<open>np.linspace(start, stop, num)\<close> and \<^verbatim>\<open>np.arange(start, stop, step)\<close> on
  floats; the latter has \<open>\<lceil>(stop - start) / step\<rceil>\<close> elements.
\<close>

definition np_linspace :: "real \<Rightarrow> real \<Rightarrow> nat \<Rightarrow> real list" where
  "np_linspace start stop num =
     (if num = 1 then [start]
      else map (\<lambda>i. start + real i * ((stop - start) / real (num - 1))) [0..<num])"

definition np_arange :: "real \<Rightarrow> real \<Rightarrow> real \<Rightarrow> real list" where
  "np_arange start stop step =
     map (\<lambda>i. start + real i * step) [0..<nat \<lceil>(stop - start) / step\<rceil>]"

fun cumsum_from :: "real \<Rightarrow> real list \<Rightarrow> real list" where
  "cumsum_from acc [] = []"
| "cumsum_from acc (x # xs) = (acc + x) # cumsum_from (acc + x) xs"

definition np_cumsum :: "real list \<Rightarrow> real list" where
  "np_cumsum xs = cumsum_from 0 xs"

definition np_unique :: "real list \<Rightarrow> real list" where
  "np_unique xs = sort (remdups xs)"

text \<open>\<^verbatim>\<open>np.where(i == a)[0]\<close>: the positions of \<open>a\<close> that hold \<open>i\<close>, ascending.\<close>

definition np_where_eq :: "real \<Rightarrow> real list \<Rightarrow> nat list" where
  "np_where_eq i a = filter (\<lambda>j. i = a ! j) [0..<length a]"

text \<open>\<^verbatim>\<open>a[loc] = v\<close> for an index array \<open>loc\<close>.\<close>

definition assign_at :: "real list \<Rightarrow> nat list \<Rightarrow> real \<Rightarrow> real list" where
  "assign_at a loc v = fold (\<lambda>j c. c[j := v]) loc a"

text \<open>
  Elementwise division with numpy's broadcasting of one-dimensional arrays: an array of
  one element pairs with every element of the other array; two arrays of other, different
  lengths do not broadcast.
\<close>

definition np_divide :: "real list \<Rightarrow> real list \<Rightarrow> error + real list" where
  "np_divide xs ys =
     (if length ys = 1 then Inr (map (\<lambda>x. x / hd ys) xs)
      else if length xs = 1 then Inr (map (\<lambda>y. hd xs / y) ys)
      else if length xs = length ys then Inr (map (\<lambda>(x, y). x / y) (zip xs ys))
      else Inl ValueError)"

text \<open>\<^verbatim>\<open>list.index(v)\<close>: the first position of \<open>v\<close>, or \<^verbatim>\<open>ValueError\<close>.\<close>

fun py_index :: "real list \<Rightarrow> real \<Rightarrow> error + nat" where
  "py_index [] v = Inl ValueError"
| "py_index (y # ys) v =
     (if y = v then Inr 0 else bind_result (py_index ys v) (\<lambda>i. Inr (Suc i)))"


section \<open>compare.py\<close>

text \<open>
  \<^verbatim>\<open>empirical_cdf\<close>, lines 237 to 246. \<^verbatim>\<open>np.empty\<close> returns an array whose
  contents are whatever the memory held; \<open>uninit j\<close> is the content of cell \<open>j\<close>.
  The loop runs over the sorted unique values, carrying \<open>count\<close> and \<open>cdf\<close>.
\<close>

fun empirical_cdf_loop ::
  "real list \<Rightarrow> nat \<Rightarrow> real list \<Rightarrow> nat \<Rightarrow> real list \<Rightarrow> real list" where
  "empirical_cdf_loop emp_data leng [] count cdf = cdf"
| "empirical_cdf_loop emp_data leng (i # unq_vals) count cdf =
     (let loc = np_where_eq i emp_data;
          count' = count + length loc;
          cdf' = assign_at cdf loc (real count' / real leng)
      in empirical_cdf_loop emp_data leng unq_vals count' cdf')"

definition empirical_cdf :: "(nat \<Rightarrow> real) \<Rightarrow> pyarg \<Rightarrow> real list" where
  "empirical_cdf uninit arg =
     (let emp_data = cnvrt_to_arrays arg;
          unq_vals = np_unique emp_data;
          leng = length emp_data;
          cdf = map uninit [0..<length emp_data]
      in empirical_cdf_loop emp_data leng unq_vals 0 cdf)"

text \<open>
  \<^verbatim>\<open>aic_weights\<close>, lines 315 to 321. \<^verbatim>\<open>np.min\<close> of an empty array raises
  \<^verbatim>\<open>ValueError\<close>.
\<close>

definition aic_weights :: "pyarg \<Rightarrow> error + real list" where
  "aic_weights arg =
     (let aic_values = cnvrt_to_arrays arg in
      if aic_values = [] then Inl ValueError
      else
        let minimum = Min (set aic_values);
            delta = map (\<lambda>x. x - minimum) aic_values;
            values = map (\<lambda>d. exp (- d / 2)) delta;
            weights = map (\<lambda>x. x / py_sum values) values
        in Inr weights)"

text \<open>\<^verbatim>\<open>likelihood_ratio_test\<close>, lines 371 to 376.\<close>

definition likelihood_ratio_test ::
  "numlib \<Rightarrow> pyarg \<Rightarrow> pyarg \<Rightarrow> pyarg \<Rightarrow> error + (real \<times> real) list" where
  "likelihood_ratio_test L a b c =
     (let nll_null = cnvrt_to_arrays a;
          nll_alt = cnvrt_to_arrays b;
          df_list = cnvrt_to_arrays c
      in if length nll_null = length nll_alt \<and> length nll_null = length df_list
            \<and> length nll_alt = length df_list
         then
           let test_stat = map (\<lambda>(x, y). 2 * x - 2 * y) (zip nll_null nll_alt)
           in Inr (map (\<lambda>(ts, df). (ts, chisqprob L ts df)) (zip test_stat df_list))
         else Inl AssertionError)"

section \<open>predict\_sad.py\<close>

text \<open>
  The assertions that open \<^verbatim>\<open>lgsr_pmf\<close> (lines 90 to 96), \<^verbatim>\<open>neg_binom_pmf\<close>
  (135 to 141), \<^verbatim>\<open>mete_lgsr_pmf\<close> (481 to 487) and \<^verbatim>\<open>mete_lgsr_approx_pmf\<close>
  (541 to 547) are the same five, in the same order.
\<close>

definition shape_asserts :: "int \<Rightarrow> int \<Rightarrow> int list \<Rightarrow> bool \<Rightarrow> error + unit" where
  "shape_asserts S N abundances pmf_ret =
     (if S < N then
        if S > 1 then
          if N > 0 then
            if pmf_ret = False then
              if int (length abundances) = S then
                if sum_list abundances = N then Inr () else Inl AssertionError
              else Inl AssertionError
            else Inr ()
          else Inl AssertionError
        else Inl AssertionError
      else Inl AssertionError)"

text \<open>
  \<^verbatim>\<open>lgsr_pmf\<close>. \<^verbatim>\<open>np.linspace(1, N, num=N)\<close> is the array 1.0, 2.0, ..., N.
\<close>

definition lgsr_eq :: "numlib \<Rightarrow> int \<Rightarrow> int \<Rightarrow> real \<Rightarrow> error + real" where
  "lgsr_eq L S N x =
     bind_result (py_div (real_of_int N) x) (\<lambda>q.
     bind_result (m_log L (1 - x)) (\<lambda>l.
       Inr ((q - real_of_int N) * (- l) - real_of_int S)))"

definition lgsr_pmf :: "numlib \<Rightarrow> int \<Rightarrow> int \<Rightarrow> int list \<Rightarrow> bool \<Rightarrow> error + real list" where
  "lgsr_pmf L S N abundances pmf_ret =
     bind_result (shape_asserts S N abundances pmf_ret) (\<lambda>_.
       let start = - 2;
           stop = 1 - 1 / 10 ^ 10
       in bind_result (brentq L (lgsr_eq L S N) start stop) (\<lambda>x.
            let k = (if pmf_ret then [1..N] else abundances)
            in Inr (map (\<lambda>k. logser_pmf L (real_of_int k) x) k)))"

text \<open>\<^verbatim>\<open>neg_binom_pmf\<close> and \<^verbatim>\<open>fit_neg_binom_pmf\<close>.\<close>

definition neg_binom_pmf ::
  "numlib \<Rightarrow> int \<Rightarrow> int \<Rightarrow> real \<Rightarrow> int list \<Rightarrow> bool \<Rightarrow> error + real list" where
  "neg_binom_pmf L S N k abundances pmf_ret =
     bind_result (shape_asserts S N abundances pmf_ret) (\<lambda>_.
     bind_result (py_div (real_of_int N) (real_of_int S)) (\<lambda>mu.
     bind_result (py_div k (mu + k)) (\<lambda>p.
       let n = (if pmf_ret then [1..N] else abundances)
       in Inr (map (\<lambda>n. nbinom_pmf L (real_of_int n) k p) n))))"

definition fit_neg_binom_pmf :: "numlib \<Rightarrow> int list \<Rightarrow> real \<Rightarrow> error + real" where
  "fit_neg_binom_pmf L sad guess_for_k =
     (let nll_nb = (\<lambda>k.
            bind_result (neg_binom_pmf L (int (length sad)) (sum_list sad) k sad False)
              (\<lambda>pmf. Inr (- py_sum (map (np_log L) pmf))))
      in fmin1 L nll_nb guess_for_k)"

text \<open>
  \<^verbatim>\<open>plognorm_pmf\<close>. The argument is a list here, so the assertion on its type holds.
  \<^verbatim>\<open>np.arange(1, int(np.sum(abundances) + 1))\<close> is 1, ..., sum, empty when the sum is
  below 1. In the regular branch \<open>var\<close> is positive, so neither \<^verbatim>\<open>var**0.5\<close> nor a
  division by \<open>sd\<close> raises.
\<close>

definition floor_value :: real where
  "floor_value = 1 / 10 ^ 120"

definition plognorm_point :: "numlib \<Rightarrow> real \<Rightarrow> real \<Rightarrow> real \<Rightarrow> int \<Rightarrow> error + real" where
  "plognorm_point L mean var sd n =
     (if n \<le> 170 then
        let integral =
              quad L (\<lambda>t. exp (t * real_of_int n - exp t - 0.5 * ((t - mean) / sd) ^ 2))
        in bind_result (m_log L (2 * pi * var)) (\<lambda>lv.
           bind_result (m_lgamma L (n + 1)) (\<lambda>lg.
             Inr (exp (- 0.5 * lv - lg) * integral)))
      else
        bind_result (m_log L (real_of_int n)) (\<lambda>log_n.
          let z = (log_n - mean) / sd
          in Inr ((1 + (z ^ 2 + log_n - mean - 1) / (2 * real_of_int n * sd ^ 2)) *
                  exp (- 0.5 * z ^ 2) / (sqrt (2 * pi) * sd * real_of_int n))))"

definition plognorm_pmf ::
  "numlib \<Rightarrow> real \<Rightarrow> real \<Rightarrow> int list \<Rightarrow> bool \<Rightarrow> error + real list" where
  "plognorm_pmf L mean var abundances pmf_ret =
     (if length abundances \<ge> 1 then
        let n_array = (if pmf_ret then [1..sum_list abundances] else abundances)
        in if var \<le> 0 \<or> mean \<le> 0 then Inr (replicate (length n_array) floor_value)
           else
             let sd = sqrt var
             in map_result (plognorm_point L mean var sd) n_array
      else Inl AssertionError)"

text \<open>\<^verbatim>\<open>trun_plognorm_pmf\<close>, lines 269 to 273.\<close>

definition trun_plognorm_pmf ::
  "numlib \<Rightarrow> real \<Rightarrow> real \<Rightarrow> int list \<Rightarrow> bool \<Rightarrow> error + real list" where
  "trun_plognorm_pmf L mean var abundances pmf_ret =
     bind_result (plognorm_pmf L mean var abundances pmf_ret) (\<lambda>untr_pmf.
     bind_result (plognorm_pmf L mean var [0] False) (\<lambda>pmf0.
       np_divide untr_pmf (map (\<lambda>p. 1 - p) pmf0)))"

text \<open>
  \<^verbatim>\<open>plognorm_MLE\<close>. \<^verbatim>\<open>np.var(..., ddof=1)\<close> divides by the length less one.
\<close>

definition np_mean :: "real list \<Rightarrow> real" where
  "np_mean xs = sum_list xs / real (length xs)"

definition np_var_ddof1 :: "real list \<Rightarrow> real" where
  "np_var_ddof1 xs =
     sum_list (map (\<lambda>x. (x - np_mean xs) ^ 2) xs) / (real (length xs) - 1)"

definition plognorm_MLE :: "numlib \<Rightarrow> int list \<Rightarrow> bool \<Rightarrow> error + real \<times> real" where
  "plognorm_MLE L abundances trun =
     (if length abundances \<ge> 1 then
        let logs = map (\<lambda>a. np_log L (real_of_int a)) abundances;
            mu0 = np_mean logs;
            var0 = np_var_ddof1 logs;
            pln_func = (\<lambda>(x0, x1).
              if trun then
                bind_result (trun_plognorm_pmf L x0 x1 abundances False)
                  (\<lambda>pmf. Inr (- py_sum (map (np_log L) pmf)))
              else
                bind_result (plognorm_pmf L x0 x1 abundances False)
                  (\<lambda>pmf. Inr (- py_sum (map (np_log L) pmf))))
        in fmin2 L pln_func (mu0, var0)
      else Inl AssertionError)"

text \<open>
  \<^verbatim>\<open>mete_lgsr_pmf\<close>. \<open>n\<close> is 1, ..., N, and \<^verbatim>\<open>sys.float_info[0]\<close> is the largest
  double.
\<close>

definition float_max :: real where
  "float_max = (2 ^ 53 - 1) * 2 ^ 971"

definition mete_eq :: "int \<Rightarrow> int \<Rightarrow> real \<Rightarrow> error + real" where
  "mete_eq S N x =
     (let n = [1..<Suc (nat N)]
      in Inr (py_sum (map (\<lambda>k. x ^ k / real_of_int N * real_of_int S) n)
              - py_sum (map (\<lambda>k. x ^ k / real k) n)))"

definition mete_lgsr_pmf ::
  "numlib \<Rightarrow> int \<Rightarrow> int \<Rightarrow> int list \<Rightarrow> bool \<Rightarrow> error + real list" where
  "mete_lgsr_pmf L S N abundances pmf_ret =
     bind_result (shape_asserts S N abundances pmf_ret) (\<lambda>_.
       let start = 3 / 10;
           stop = 2;
           n = [1..<Suc (nat N)]
       in bind_result
            (brentq L (mete_eq S N) start
               (min ((float_max / real_of_int S) powr (1 / real_of_int N)) stop))
            (\<lambda>x.
               let nvals = (if pmf_ret then [1..N] else abundances);
                   norm = py_sum (map (\<lambda>k. x ^ k / real k) n)
               in Inr (map (\<lambda>k. (x powi k / real_of_int k) / norm) nvals)))"

text \<open>
  \<^verbatim>\<open>mete_lgsr_approx_pmf\<close>. The function prints, so it returns the printed lines
  beside its result. The parameter \<^verbatim>\<open>root\<close> (written \<open>root'\<close>) has the default 2:
  \<open>None\<close> is a call that leaves it out. The local variable \<open>x\<close> is an option: \<open>None\<close> while no
  assignment to it has run.
\<close>

definition approx_eq :: "numlib \<Rightarrow> int \<Rightarrow> int \<Rightarrow> real \<Rightarrow> error + real" where
  "approx_eq L S N x =
     bind_result (m_log L x) (\<lambda>l1.
     bind_result (m_log L x) (\<lambda>l2.
     bind_result (py_div (- 1) l2) (\<lambda>q.
     bind_result (m_log L q) (\<lambda>l3.
     bind_result (py_div (real_of_int S) (real_of_int N)) (\<lambda>r.
       Inr ((- l1) * l3 - r))))))"

definition more_than_one :: string where
  "more_than_one = ''Warning: More than one solution.''"

text \<open>Lines 563 to 566: the two tests of \<^verbatim>\<open>root\<close>, one after the other.\<close>

definition select_root ::
  "numlib \<Rightarrow> (real \<Rightarrow> error + real) \<Rightarrow> real \<Rightarrow> real \<Rightarrow> real \<Rightarrow> int \<Rightarrow> error + real option"
  where
  "select_root L eq start stop xmax root' =
     bind_result
       (if root' = 1 then bind_result (brentq L eq start xmax) (\<lambda>x. Inr (Some x))
        else Inr None) (\<lambda>x1.
       (if root' = 2 then bind_result (brentq L eq xmax stop) (\<lambda>x. Inr (Some x))
        else Inr x1))"

text \<open>Lines 555 to 560: the scan of 1000 points for the maximum and its place.\<close>

definition grid_scan ::
  "(real \<Rightarrow> error + real) \<Rightarrow> real \<Rightarrow> real \<Rightarrow> error + real \<times> real" where
  "grid_scan eq start stop =
     (let values = np_linspace start stop 1000
      in bind_result (map_result eq values) (\<lambda>solns.
           let ymax = Max (set solns)
           in bind_result (py_index solns ymax) (\<lambda>i. Inr (ymax, values ! i))))"

text \<open>Lines 552 to 570: the value of \<open>x\<close> after the \<^verbatim>\<open>try\<close> statement.\<close>

definition find_root ::
  "numlib \<Rightarrow> int \<Rightarrow> int \<Rightarrow> int \<Rightarrow> string list \<times> (error + real option)" where
  "find_root L S N root' =
     (let start = 3 / 10;
          stop = 1 - 1 / 10 ^ 10;
          eq = approx_eq L S N
      in case brentq L eq start stop of
           Inr x \<Rightarrow> ([], Inr (Some x))
         | Inl e \<Rightarrow>
             if e = ValueError then
               (case grid_scan eq start stop of
                  Inl e' \<Rightarrow> ([], Inl e')
                | Inr (ymax, xmax) \<Rightarrow>
                    let (out, r) =
                          (if ymax > 0 then
                             ([more_than_one], select_root L eq start stop xmax root')
                           else ([], Inr None))
                    in (out, bind_result r (\<lambda>xo.
                          if ymax < 0 then Inl RootError else Inr xo)))
             else ([], Inl e))"

text \<open>Lines 571 to 578: the first use of \<open>x\<close> is in line 575.\<close>

definition pmf_of_root ::
  "numlib \<Rightarrow> int \<Rightarrow> int list \<Rightarrow> bool \<Rightarrow> real option \<Rightarrow> error + real list" where
  "pmf_of_root L N abundances pmf_ret xo =
     (let k = (if pmf_ret then [1..N] else abundances)
      in case xo of
           None \<Rightarrow> Inl UnboundLocalError
         | Some x \<Rightarrow>
             bind_result (m_log L x) (\<lambda>lx.
             bind_result (py_div (- 1) lx) (\<lambda>g.
             bind_result (m_log L g) (\<lambda>lg.
             bind_result (py_div 1 lg) (\<lambda>c.
               Inr (map (\<lambda>k. c * (x powi k / real_of_int k)) k))))))"

definition mete_lgsr_approx_pmf ::
  "numlib \<Rightarrow> int \<Rightarrow> int \<Rightarrow> int list \<Rightarrow> bool \<Rightarrow> int option
     \<Rightarrow> string list \<times> (error + real list)" where
  "mete_lgsr_approx_pmf L S N abundances pmf_ret root_arg =
     (let root' = (case root_arg of None \<Rightarrow> 2 | Some r \<Rightarrow> r)
      in case shape_asserts S N abundances pmf_ret of
           Inl e \<Rightarrow> ([], Inl e)
         | Inr _ \<Rightarrow>
             (case find_root L S N root' of
                (out, Inl e) \<Rightarrow> (out, Inl e)
              | (out, Inr xo) \<Rightarrow> (out, pmf_of_root L N abundances pmf_ret xo)))"

text \<open>
  \<^verbatim>\<open>make_rank_abund\<close>, lines 633 to 645. The loop over the cutoffs carries
  \<open>S_abunds\<close> and stops early at the first cutoff above every point.
\<close>

fun rank_loop :: "real list \<Rightarrow> real list \<Rightarrow> real list \<Rightarrow> real list" where
  "rank_loop S_points S_abunds [] = S_abunds"
| "rank_loop S_points S_abunds (cutoff # rest) =
     (let greater_thans = map (\<lambda>p. p \<ge> cutoff) S_points;
          S_abunds' = map (\<lambda>(a, g). if g then a + 1 else a) (zip S_abunds greater_thans)
      in if True \<in> set greater_thans then rank_loop S_points S_abunds' rest
         else S_abunds')"

definition make_rank_abund :: "real list \<Rightarrow> int \<Rightarrow> error + real list" where
  "make_rank_abund sad_pmf S =
     bind_result (py_div 1 (real_of_int (2 * S))) (\<lambda>half.
     bind_result (py_div 1 (real_of_int S)) (\<lambda>step.
       let S_points = np_arange half (1 + half) step;
           S_abunds = replicate (length S_points) 0;
           cum_sad_pmf_w_zero = np_cumsum (0 # sad_pmf)
       in Inr (rank_loop S_points S_abunds cum_sad_pmf_w_zero)))"

text \<open>
  \<^verbatim>\<open>nll\<close>, lines 672 to 692. The condition of the assertion is
  \<^verbatim>\<open>(distribution is 'mete') or 'mete_approx' or ... or 'plognorm'\<close>: Python's \<^verbatim>\<open>or\<close>
  returns its first operand when that is true and its second otherwise, and a string is
  true when it is not empty. Whether \<^verbatim>\<open>is\<close> holds of two strings depends on the
  interpreter, so its outcome is a parameter.
\<close>

datatype pyval = PyBool bool | PyStr string

fun truthy :: "pyval \<Rightarrow> bool" where
  "truthy (PyBool b) = b"
| "truthy (PyStr s) = (s \<noteq> [])"

definition py_or :: "pyval \<Rightarrow> pyval \<Rightarrow> pyval" where
  "py_or a b = (if truthy a then a else b)"

definition nll_assert_cond :: "(string \<Rightarrow> string \<Rightarrow> bool) \<Rightarrow> string \<Rightarrow> pyval" where
  "nll_assert_cond py_is distribution =
     py_or (py_or (py_or (py_or (py_or (PyBool (py_is distribution ''mete''))
       (PyStr ''mete_approx'')) (PyStr ''neg_binom'')) (PyStr ''lgsr''))
       (PyStr ''trun_plognorm'')) (PyStr ''plognorm'')"

text \<open>
  One \<^verbatim>\<open>if\<close> statement of \<^verbatim>\<open>nll\<close>: when the name matches, \<open>pmf\<close> is assigned
  (or the call raises); otherwise \<open>pmf\<close> is left as it was.
\<close>

definition assign_if ::
  "bool \<Rightarrow> string list \<times> (error + real list) \<Rightarrow> string list \<times> real list option
     \<Rightarrow> string list \<times> (error + real list option)" where
  "assign_if c call st =
     (if c then
        (case call of
           (out, Inl e) \<Rightarrow> (fst st @ out, Inl e)
         | (out, Inr pmf) \<Rightarrow> (fst st @ out, Inr (Some pmf)))
      else (fst st, Inr (snd st)))"

definition then_if ::
  "string list \<times> (error + real list option) \<Rightarrow> bool \<Rightarrow> string list \<times> (error + real list)
     \<Rightarrow> string list \<times> (error + real list option)" where
  "then_if r c call =
     (case r of
        (out, Inl e) \<Rightarrow> (out, Inl e)
      | (out, Inr pmf) \<Rightarrow> assign_if c call (out, pmf))"

definition nll ::
  "numlib \<Rightarrow> (string \<Rightarrow> string \<Rightarrow> bool) \<Rightarrow> int list \<Rightarrow> string
     \<Rightarrow> string list \<times> (error + real)" where
  "nll L py_is sad distribution =
     (if truthy (nll_assert_cond py_is distribution) then
        let len = int (length sad);
            total = sum_list sad;
            s1 = assign_if (distribution = ''mete'')
                   ([], mete_lgsr_pmf L len total sad False) ([], None);
            s2 = then_if s1 (distribution = ''mete_approx'')
                   (mete_lgsr_approx_pmf L len total sad False None);
            s3 = then_if s2 (distribution = ''neg_binom'')
                   ([], bind_result (fit_neg_binom_pmf L sad 1)
                          (\<lambda>mlek. neg_binom_pmf L len total mlek sad False));
            s4 = then_if s3 (distribution = ''trun_plognorm'')
                   ([], bind_result (plognorm_MLE L sad True)
                          (\<lambda>(mu, var). trun_plognorm_pmf L mu var sad False));
            s5 = then_if s4 (distribution = ''plognorm'')
                   ([], bind_result (plognorm_MLE L sad False)
                          (\<lambda>(mu, var). plognorm_pmf L mu var sad False));
            s6 = then_if s5 (distribution = ''lgsr'')
                   ([], lgsr_pmf L len total sad False)
        in case s6 of
             (out, Inl e) \<Rightarrow> (out, Inl e)
           | (out, Inr None) \<Rightarrow> (out, Inl UnboundLocalError)
           | (out, Inr (Some pmf)) \<Rightarrow> (out, Inr (- py_sum (map (np_log L) pmf)))
      else ([], Inl AssertionError))"

section \<open>Library instances for the examples\<close>

text \<open>
  The examples below need closed terms, so they run on an instance of the library. Its
  logarithm is the real one. Its root finder checks the signs at the ends of the bracket,
  as \<^verbatim>\<open>brentq\<close> does (\<^verbatim>\<open>ValueError\<close> when they agree), and answers with the
  middle of the bracket. The other fields are simple stand-ins: a rectangle rule, an
  optimiser that stops where it starts, the survival function of two degrees of freedom,
  and the textbook formulas of the two distributions.
\<close>

definition midpoint_brentq :: "(real \<Rightarrow> error + real) \<Rightarrow> real \<Rightarrow> real \<Rightarrow> error + real" where
  "midpoint_brentq f a b =
     bind_result (f a) (\<lambda>fa.
     bind_result (f b) (\<lambda>fb.
       if fa * fb > 0 then Inl ValueError else Inr ((a + b) / 2)))"

definition sample_lib :: numlib where
  "sample_lib =
     \<lparr> math_log = ln,
       math_lgamma = (\<lambda>k. ln (fact (nat (k - 1)))),
       brentq = midpoint_brentq,
       quad = (\<lambda>f. sum_list (map (\<lambda>i. f (real_of_int i / 10) / 10) [- 200..200])),
       fmin1 = (\<lambda>f x0. Inr x0),
       fmin2 = (\<lambda>f x0. Inr x0),
       chisqprob = (\<lambda>ts df. exp (- ts / 2)),
       logser_pmf = (\<lambda>k x. - (x powr k) / (k * ln (1 - x))),
       nbinom_pmf = (\<lambda>n k p. ((k + n - 1) gchoose nat \<lfloor>n\<rfloor>) * p powr k * (1 - p) powr n) \<rparr>"

text \<open>
  A second instance has a logarithm of four values only. On it the scan of
  \<^verbatim>\<open>mete_lgsr_approx_pmf\<close> for \<open>S = 2\<close> and \<open>N = 16\<close> has the maximum 0.
\<close>

definition step_log :: "real \<Rightarrow> real" where
  "step_log x =
     (if x \<le> 3 / 10 then - 2
      else if x < 999 / 1000 then - 1 / 2
      else if x < 1 then - 1 / 4
      else 1 / 4)"

definition coarse_lib :: numlib where
  "coarse_lib = sample_lib \<lparr> math_log := step_log \<rparr>"

text \<open>
  The left side of the constraint of \<^verbatim>\<open>mete_lgsr_approx_pmf\<close> less \<open>c = S / N\<close>, on
  the reals, and the values the same constraint takes with the coarse logarithm for
  \<open>S = 2\<close> and \<open>N = 16\<close>.
\<close>

definition harte_F :: "real \<Rightarrow> real \<Rightarrow> real" where
  "harte_F c x = (- ln x) * ln (- 1 / ln x) - c"

definition coarse_F :: "real \<Rightarrow> real" where
  "coarse_F v = (if v \<le> 3 / 10 then - 9 / 8 else if v < 999 / 1000 then 0 else - 1 / 16)"

section \<open>Properties of the comparison statistics\<close>

lemma py_sum_sum_list: "py_sum xs = sum_list xs"
proof -
  have "foldl (+) a xs = a + sum_list xs" for a :: real
    by (induction xs arbitrary: a) (simp_all add: algebra_simps)
  from this [of 0] show ?thesis by (simp add: py_sum_def)
qed

lemma sum_list_pos_real:
  fixes xs :: "real list"
  assumes "xs \<noteq> []" and "\<And>x. x \<in> set xs \<Longrightarrow> 0 < x"
  shows "0 < sum_list xs"
  using assms
proof (induction xs)
  case Nil
  then show ?case by simp
next
  case (Cons a xs)
  have "0 \<le> sum_list xs"
    by (rule sum_list_nonneg) (use Cons.prems(2) in \<open>auto intro: less_imp_le\<close>)
  moreover have "0 < a" using Cons.prems(2) by simp
  ultimately show ?case by simp
qed

lemma sum_list_divide_const:
  fixes xs :: "real list"
  shows "sum_list (map (\<lambda>x. x / s) xs) = sum_list xs / s"
  by (induction xs) (simp_all add: add_divide_distrib)

lemma Min_shift:
  fixes xs :: "real list"
  assumes "xs \<noteq> []"
  shows "Min (set (map (\<lambda>a. a + c) xs)) = Min (set xs) + c"
proof -
  have "Min ((\<lambda>a. a + c) ` set xs) = Min ((\<lambda>a. a) ` set xs) + c"
    by (rule Min_add_commute) (use assms in auto)
  then show ?thesis by simp
qed

lemma aic_weights_Seq:
  assumes "xs \<noteq> []"
  shows "aic_weights (Seq xs) =
    Inr (map (\<lambda>a. exp (- (a - Min (set xs)) / 2) /
                  (\<Sum>b\<leftarrow>xs. exp (- (b - Min (set xs)) / 2))) xs)"
proof -
  have "map (\<lambda>x. x / t) (map (\<lambda>d. exp (- d / 2)) (map (\<lambda>x. x - m) xs))
        = map (\<lambda>a. exp (- (a - m) / 2) / t) xs" for t m :: real
    by (simp only: map_map comp_def)
  moreover have "sum_list (map (\<lambda>d. exp (- d / 2)) (map (\<lambda>x. x - m) xs))
        = (\<Sum>b\<leftarrow>xs. exp (- (b - m) / 2))" for m :: real
    by (simp only: map_map comp_def)
  ultimately show ?thesis
    using assms unfolding aic_weights_def Let_def py_sum_sum_list
    by (simp only: cnvrt_to_arrays.simps if_False)
qed

text \<open>
  C3. For a non-empty list of AIC values \<open>xs\<close>, \<open>aic_weights\<close> returns one weight per
  value: the weight of \<open>a\<close> is \<open>exp (- (a - min) / 2)\<close> divided by the sum of these
  terms over the list. The weights sum to 1 (so they are within \<open>1e-9\<close> of it), and
  adding a constant \<open>c\<close> to every value gives the same weights. Floats are read as reals.
\<close>

theorem aic_weights_normalised:
  assumes "xs \<noteq> []"
  shows "\<exists>ws. aic_weights (Seq xs) = Inr ws
          \<and> length ws = length xs
          \<and> ws = map (\<lambda>a. exp (- (a - Min (set xs)) / 2) /
                          (\<Sum>b\<leftarrow>xs. exp (- (b - Min (set xs)) / 2))) xs
          \<and> sum_list ws = 1
          \<and> \<bar>sum_list ws - 1\<bar> \<le> 1 / 10 ^ 9
          \<and> aic_weights (Seq (map (\<lambda>a. a + c) xs)) = Inr ws"
proof -
  define m where "m = Min (set xs)"
  define s where "s = (\<Sum>b\<leftarrow>xs. exp (- (b - m) / 2))"
  define ws where "ws = map (\<lambda>a. exp (- (a - m) / 2) / s) xs"
  have w: "aic_weights (Seq xs) = Inr ws"
    using aic_weights_Seq [OF assms] by (simp add: ws_def s_def m_def)
  have "0 < s"
    unfolding s_def by (rule sum_list_pos_real) (use assms in auto)
  have "sum_list ws = sum_list (map (\<lambda>v. v / s) (map (\<lambda>a. exp (- (a - m) / 2)) xs))"
    by (simp add: ws_def comp_def)
  also have "\<dots> = s / s"
    by (simp only: sum_list_divide_const s_def)
  finally have one: "sum_list ws = 1"
    using \<open>0 < s\<close> by simp
  have ne: "map (\<lambda>a. a + c) xs \<noteq> []"
    using assms by simp
  have "aic_weights (Seq (map (\<lambda>a. a + c) xs)) = Inr ws"
    using aic_weights_Seq [OF ne] Min_shift [OF assms, of c]
    by (simp add: ws_def s_def m_def comp_def)
  with w one show ?thesis
    by (intro exI [of _ ws]) (simp add: ws_def s_def m_def)
qed

theorem aic_weights_normalised_witness:
  "\<exists>ws. aic_weights (Seq [10, 12]) = Inr ws \<and> length ws = 2
        \<and> sum_list ws = 1
        \<and> aic_weights (Seq [15, 17]) = Inr ws"
  using aic_weights_normalised [of "[10, 12]" 5] by simp

text \<open>
  C4. When the three arguments convert to arrays of one length, \<open>likelihood_ratio_test\<close>
  returns one pair per entry: the statistic \<open>2 * nll_null - 2 * nll_alt\<close> and the value
  of \<open>chisqprob\<close> (the chi-squared survival function) at that statistic and the entry's
  degrees of freedom. The statistic is not negative where \<open>nll_null \<ge> nll_alt\<close>, and
  for 50, 45 and one degree of freedom it is 10.
\<close>

theorem likelihood_ratio_test_statistic:
  assumes "length (cnvrt_to_arrays a) = length (cnvrt_to_arrays b)"
    and "length (cnvrt_to_arrays a) = length (cnvrt_to_arrays c)"
  shows "\<exists>r. likelihood_ratio_test L a b c = Inr r
          \<and> length r = length (cnvrt_to_arrays a)
          \<and> (\<forall>i < length r.
                fst (r ! i) = 2 * cnvrt_to_arrays a ! i - 2 * cnvrt_to_arrays b ! i
              \<and> snd (r ! i) = chisqprob L (fst (r ! i)) (cnvrt_to_arrays c ! i)
              \<and> (cnvrt_to_arrays a ! i \<ge> cnvrt_to_arrays b ! i \<longrightarrow> fst (r ! i) \<ge> 0))
          \<and> likelihood_ratio_test L (Scalar 50) (Scalar 45) (Scalar 1)
              = Inr [(10, chisqprob L 10 1)]"
proof -
  define xs where "xs = cnvrt_to_arrays a"
  define ys where "ys = cnvrt_to_arrays b"
  define ds where "ds = cnvrt_to_arrays c"
  define r where
    "r = map (\<lambda>(ts, df). (ts, chisqprob L ts df))
           (zip (map (\<lambda>(x, y). 2 * x - 2 * y) (zip xs ys)) ds)"
  have len: "length xs = length ys" "length xs = length ds"
    using assms by (simp_all add: xs_def ys_def ds_def)
  have run: "likelihood_ratio_test L a b c = Inr r"
    using len by (simp add: likelihood_ratio_test_def Let_def r_def xs_def ys_def ds_def)
  have lr: "length r = length xs"
    using len by (simp add: r_def)
  have pt: "fst (r ! i) = 2 * xs ! i - 2 * ys ! i
            \<and> snd (r ! i) = chisqprob L (fst (r ! i)) (ds ! i)"
    if "i < length r" for i
    using that len by (simp add: r_def)
  have nonneg: "fst (r ! i) \<ge> 0" if "i < length r" "xs ! i \<ge> ys ! i" for i
    using pt [OF that(1)] that(2) by simp
  have ex: "likelihood_ratio_test L (Scalar 50) (Scalar 45) (Scalar 1)
              = Inr [(10, chisqprob L 10 1)]"
    by (simp add: likelihood_ratio_test_def)
  from run lr pt nonneg ex show ?thesis
    unfolding xs_def ys_def ds_def by blast
qed

theorem likelihood_ratio_test_statistic_witness:
  "\<exists>r. likelihood_ratio_test sample_lib (Seq [50, 30]) (Seq [45, 31]) (Seq [1, 2]) = Inr r
        \<and> length r = 2 \<and> fst (r ! 0) = 10 \<and> snd (r ! 0) = chisqprob sample_lib 10 1
        \<and> fst (r ! 0) \<ge> 0 \<and> fst (r ! 1) = - 2"
proof -
  obtain r where r:
    "likelihood_ratio_test sample_lib (Seq [50, 30]) (Seq [45, 31]) (Seq [1, 2]) = Inr r"
    "length r = 2"
    "\<forall>i < length r.
        fst (r ! i) = 2 * [50, 30 :: real] ! i - 2 * [45, 31 :: real] ! i
      \<and> snd (r ! i) = chisqprob sample_lib (fst (r ! i)) ([1, 2 :: real] ! i)
      \<and> ([50, 30 :: real] ! i \<ge> [45, 31 :: real] ! i \<longrightarrow> fst (r ! i) \<ge> 0)"
    using likelihood_ratio_test_statistic
      [of "Seq [50, 30]" "Seq [45, 31]" "Seq [1, 2]" sample_lib]
    by auto
  from r(3) r(2) have "fst (r ! 0) = 10 \<and> snd (r ! 0) = chisqprob sample_lib 10 1
        \<and> fst (r ! 0) \<ge> 0 \<and> fst (r ! 1) = - 2"
    by (simp add: nth_Cons')
  with r(1,2) show ?thesis by blast
qed

section \<open>Properties of the distributions\<close>





lemma plognorm_pmf_zero:
  "\<exists>p0. plognorm_pmf L mean var [0] False = Inr [p0]"
proof (cases "var \<le> 0 \<or> mean \<le> 0")
  case True
  then show ?thesis by (simp add: plognorm_pmf_def)
next
  case False
  then have "0 < var" by simp
  then have "0 < pi * var"
    by (rule mult_pos_pos [OF pi_gt_zero])
  then have "\<not> pi * var \<le> 0"
    by simp
  then show ?thesis
    using False
    by (simp add: plognorm_pmf_def plognorm_point_def m_log_def m_lgamma_def bind_result_def
        Let_def)
qed

text \<open>
  C6. The single-point call \<open>plognorm_pmf mean var [0]\<close> returns one value \<open>p0\<close> and
  never raises, and \<open>trun_plognorm_pmf\<close> is \<open>plognorm_pmf\<close> on the same arguments
  with every entry divided by \<open>1 - p0\<close> (an exception of the untruncated call is passed
  on). The broadcasting division of the source comes down to this map.
\<close>

theorem trun_plognorm_pmf_quotient:
  "\<exists>p0. plognorm_pmf L mean var [0] False = Inr [p0]
       \<and> trun_plognorm_pmf L mean var abundances pmf_ret =
           bind_result (plognorm_pmf L mean var abundances pmf_ret)
             (\<lambda>untr_pmf. Inr (map (\<lambda>p. p / (1 - p0)) untr_pmf))"
proof -
  obtain p0 where p0: "plognorm_pmf L mean var [0] False = Inr [p0]"
    using plognorm_pmf_zero by blast
  have "trun_plognorm_pmf L mean var abundances pmf_ret =
           bind_result (plognorm_pmf L mean var abundances pmf_ret)
             (\<lambda>untr_pmf. Inr (map (\<lambda>p. p / (1 - p0)) untr_pmf))"
    by (simp add: trun_plognorm_pmf_def p0 bind_result_def np_divide_def split: sum.splits)
  with p0 show ?thesis by blast
qed

theorem trun_plognorm_pmf_quotient_witness:
  "trun_plognorm_pmf sample_lib (- 1) (- 1) [1, 2, 3] False =
     Inr [floor_value / (1 - floor_value), floor_value / (1 - floor_value),
          floor_value / (1 - floor_value)]"
proof -
  have z: "plognorm_pmf sample_lib (- 1) (- 1) [0] False = Inr [floor_value]"
    by (simp add: plognorm_pmf_def)
  have u: "plognorm_pmf sample_lib (- 1) (- 1) [1, 2, 3] False
            = Inr [floor_value, floor_value, floor_value]"
    by (simp add: plognorm_pmf_def numeral_3_eq_3)
  from trun_plognorm_pmf_quotient [of sample_lib "- 1" "- 1" "[1, 2, 3]" False]
  show ?thesis
    by (simp add: z u bind_result_def)
qed




lemma nll_assert_cond_truthy: "truthy (nll_assert_cond py_is d)"
  by (simp add: nll_assert_cond_def py_or_def)

text \<open>
  C9. The condition of the assertion in \<open>nll\<close> is true for every name, whatever
  \<^verbatim>\<open>is\<close> answers. For a name that is none of the six, the assertion passes, no
  branch assigns \<open>pmf\<close>, and line 692 raises \<^verbatim>\<open>UnboundLocalError\<close>.
\<close>

theorem nll_unknown_name:
  assumes "distribution \<notin>
     {''mete'', ''mete_approx'', ''neg_binom'', ''trun_plognorm'', ''plognorm'', ''lgsr''}"
  shows "(\<forall>d. truthy (nll_assert_cond py_is d))
       \<and> nll L py_is sad distribution = ([], Inl UnboundLocalError)"
proof -
  have "nll L py_is sad distribution = ([], Inl UnboundLocalError)"
    using assms nll_assert_cond_truthy [of py_is distribution]
    by (simp add: nll_def Let_def assign_if_def then_if_def)
  then show ?thesis
    using nll_assert_cond_truthy by blast
qed

theorem nll_unknown_name_witness:
  "truthy (nll_assert_cond (\<lambda>a b. a = b) ''poisson'')
   \<and> nll sample_lib (\<lambda>a b. a = b) [3, 1, 2] ''poisson'' = ([], Inl UnboundLocalError)"
  using nll_unknown_name [of "''poisson''" "\<lambda>a b. a = b" sample_lib "[3, 1, 2]"]
  by simp

text \<open>
  On a well-formed shape the same functions do reach the root finder: with a root finder
  that always raises \<^verbatim>\<open>RootError\<close>, that is the exception of the call.
\<close>

lemma lgsr_pmf_reaches_brentq:
  "lgsr_pmf (sample_lib \<lparr> brentq := (\<lambda>f a b. Inl RootError) \<rparr>) 2 5 [] True = Inl RootError"
  by (simp add: lgsr_pmf_def shape_asserts_def bind_result_def)

section \<open>The root search of the approximate METE log-series\<close>

lemma bind_result_Inr [simp]: "bind_result r Inr = r"
  by (cases r) (simp_all add: bind_result_def)

lemma bind_result_simps [simp]:
  "bind_result (Inl e) f = Inl e"
  "bind_result (Inr x) f = f x"
  by (simp_all add: bind_result_def)

lemma map_result_Inr:
  assumes "\<And>x. x \<in> set xs \<Longrightarrow> g x = Inr (f x)"
  shows "map_result g xs = Inr (map f xs)"
  using assms by (induction xs) simp_all

lemma py_index_mem:
  assumes "v \<in> set xs"
  shows "\<exists>i. py_index xs v = Inr i \<and> i < length xs \<and> xs ! i = v"
  using assms
proof (induction xs)
  case Nil
  then show ?case by simp
next
  case (Cons y ys)
  show ?case
  proof (cases "y = v")
    case True
    then show ?thesis by simp
  next
    case False
    with Cons.prems have "v \<in> set ys" by simp
    then obtain i where "py_index ys v = Inr i" "i < length ys" "ys ! i = v"
      using Cons.IH by blast
    with False show ?thesis by simp
  qed
qed

lemma np_linspace_length: "length (np_linspace start stop num) = num"
  by (simp add: np_linspace_def)

lemma np_linspace_nth:
  assumes "i < num" and "1 < num"
  shows "np_linspace start stop num ! i = start + real i * ((stop - start) / real (num - 1))"
  using assms by (simp add: np_linspace_def)

lemma np_linspace_bounds:
  assumes "start \<le> stop" and "1 < num" and "v \<in> set (np_linspace start stop num)"
  shows "start \<le> v \<and> v \<le> stop"
proof -
  define d where "d = (stop - start) / real (num - 1)"
  from assms(2,3) obtain i where i: "i < num" and v: "v = start + real i * d"
    by (auto simp: np_linspace_def d_def)
  have d: "0 \<le> d"
    using assms(1) by (simp add: d_def)
  then have "0 \<le> real i * d"
    by (intro mult_nonneg_nonneg) simp_all
  then have lo: "start \<le> v"
    by (simp add: v)
  have "real i \<le> real (num - 1)"
    using i by simp
  then have "real i * d \<le> real (num - 1) * d"
    using d by (rule mult_right_mono)
  also have "\<dots> = stop - start"
    using assms(2) by (simp add: d_def)
  finally have "v \<le> stop"
    by (simp add: v)
  with lo show ?thesis ..
qed

text \<open>
  \<^verbatim>\<open>np.linspace(1, N, num=N)\<close> is the array of the integers 1, ..., N, which the model
  of the distributions writes \<open>[1..N]\<close>.
\<close>

lemma np_linspace_integers:
  assumes "1 \<le> N"
  shows "np_linspace 1 (real_of_int N) (nat N) = map real_of_int [1..N]"
proof (cases "N = 1")
  case True
  then show ?thesis by (simp add: np_linspace_def)
next
  case False
  with assms have N: "1 < N" by simp
  then have d: "(real_of_int N - 1) / real (nat N - 1) = 1"
    by (simp add: of_nat_diff)
  show ?thesis
  proof (rule nth_equalityI)
    show "length (np_linspace 1 (real_of_int N) (nat N)) = length (map real_of_int [1..N])"
      using N by (simp add: np_linspace_def)
  next
    fix i
    assume "i < length (np_linspace 1 (real_of_int N) (nat N))"
    then have i: "i < nat N"
      by (simp add: np_linspace_def split: if_splits)
    then have "[1..N] ! i = 1 + int i"
      by (intro nth_upto) simp
    moreover have "1 < nat N"
      using N by simp
    from np_linspace_nth [OF i this, of 1 "real_of_int N"]
    have "np_linspace 1 (real_of_int N) (nat N) ! i = 1 + real i"
      by (simp only: d mult_1_right)
    ultimately show "np_linspace 1 (real_of_int N) (nat N) ! i = map real_of_int [1..N] ! i"
      using i by simp
  qed
qed

lemma grid_scan_Inr:
  assumes "\<And>v. v \<in> set (np_linspace start stop 1000) \<Longrightarrow> eq v = Inr (F v)"
  shows "\<exists>i < 1000. grid_scan eq start stop =
           Inr (Max (F ` set (np_linspace start stop 1000)), np_linspace start stop 1000 ! i)
         \<and> F (np_linspace start stop 1000 ! i) = Max (F ` set (np_linspace start stop 1000))"
proof -
  define vals where "vals = np_linspace start stop 1000"
  define solns where "solns = map F vals"
  have len: "length vals = 1000"
    by (simp add: vals_def np_linspace_length)
  have m: "map_result eq vals = Inr solns"
    unfolding solns_def by (rule map_result_Inr) (use assms in \<open>simp add: vals_def\<close>)
  have ne: "set solns \<noteq> {}"
    using len by (auto simp: solns_def)
  then have "Max (set solns) \<in> set solns"
    by (intro Max_in) simp_all
  then obtain i where i: "py_index solns (Max (set solns)) = Inr i" "i < length solns"
    "solns ! i = Max (set solns)"
    using py_index_mem by blast
  have "grid_scan eq start stop = Inr (Max (set solns), vals ! i)"
    by (simp add: grid_scan_def Let_def m i(1) flip: vals_def)
  moreover have "F (vals ! i) = Max (set solns)"
    using i(2,3) by (simp add: solns_def)
  moreover have "i < 1000"
    using i(2) len by (simp add: solns_def)
  ultimately show ?thesis
    unfolding vals_def [symmetric] by (auto simp: solns_def)
qed

lemma find_root_fallback:
  assumes "brentq L (approx_eq L S N) (3 / 10) (1 - 1 / 10 ^ 10) = Inl ValueError"
    and "grid_scan (approx_eq L S N) (3 / 10) (1 - 1 / 10 ^ 10) = Inr (ymax, xmax)"
  shows "find_root L S N r =
     (if ymax > 0 then
        ([more_than_one],
         select_root L (approx_eq L S N) (3 / 10) (1 - 1 / 10 ^ 10) xmax r)
      else if ymax < 0 then ([], Inl RootError)
      else ([], Inr None))"
  using assms by (simp add: find_root_def Let_def)

lemma select_root_cases:
  "select_root L eq start stop xmax r =
     (if r = 1 then bind_result (brentq L eq start xmax) (\<lambda>x. Inr (Some x))
      else if r = 2 then bind_result (brentq L eq xmax stop) (\<lambda>x. Inr (Some x))
      else Inr None)"
  by (simp add: select_root_def)

text \<open>
  C10. On a call that passes the assertions, when the first \<open>brentq\<close> raises
  \<^verbatim>\<open>ValueError\<close> and the scan's maximum is exactly 0, neither the branch
  \<open>ymax > 0\<close> nor the branch \<open>ymax < 0\<close> runs, \<open>x\<close> stays unassigned, and the call
  ends in \<^verbatim>\<open>UnboundLocalError\<close> (not \<^verbatim>\<open>RootError\<close>), whatever the selector. The
  theorem holds for every library; its example runs on the coarse one.
\<close>

theorem zero_maximum_unbound:
  assumes "shape_asserts S N abundances pmf_ret = Inr ()"
    and "brentq L (approx_eq L S N) (3 / 10) (1 - 1 / 10 ^ 10) = Inl ValueError"
    and "grid_scan (approx_eq L S N) (3 / 10) (1 - 1 / 10 ^ 10) = Inr (0, xmax)"
  shows "mete_lgsr_approx_pmf L S N abundances pmf_ret root_arg = ([], Inl UnboundLocalError)"
  using assms(1) find_root_fallback [OF assms(2,3)]
  by (simp add: mete_lgsr_approx_pmf_def pmf_of_root_def Let_def)

text \<open>The call \<open>S = 2\<close>, \<open>N = 16\<close> on the coarse library.\<close>

lemma coarse_lib_fields:
  "math_log coarse_lib = step_log" "brentq coarse_lib = midpoint_brentq"
  by (simp_all add: coarse_lib_def sample_lib_def)

lemma coarse_eq:
  assumes "0 < v" and "v < 1"
  shows "approx_eq coarse_lib 2 16 v = Inr (coarse_F v)"
  using assms
  by (simp add: approx_eq_def m_log_def py_div_def coarse_lib_fields step_log_def coarse_F_def)

lemma coarse_brentq_raises:
  "brentq coarse_lib (approx_eq coarse_lib 2 16) (3 / 10) (1 - 1 / 10 ^ 10) = Inl ValueError"
proof -
  have a: "approx_eq coarse_lib 2 16 (3 / 10) = Inr (- 9 / 8)"
    using coarse_eq [of "3 / 10"] by (simp add: coarse_F_def)
  have b: "approx_eq coarse_lib 2 16 (1 - 1 / 10 ^ 10) = Inr (- 1 / 16)"
    using coarse_eq [of "1 - 1 / 10 ^ 10"] by (simp add: coarse_F_def)
  show ?thesis
    by (simp only: coarse_lib_fields midpoint_brentq_def a b bind_result_simps) simp
qed

lemma coarse_grid_scan:
  "\<exists>xmax. grid_scan (approx_eq coarse_lib 2 16) (3 / 10) (1 - 1 / 10 ^ 10) = Inr (0, xmax)"
proof -
  define vals where "vals = np_linspace (3 / 10) (1 - 1 / 10 ^ 10) 1000"
  have bounds: "3 / 10 \<le> v \<and> v \<le> 1 - 1 / 10 ^ 10" if "v \<in> set vals" for v
    using np_linspace_bounds [of "3 / 10" "1 - 1 / 10 ^ 10" 1000 v] that
    by (simp add: vals_def)
  have eq: "approx_eq coarse_lib 2 16 v = Inr (coarse_F v)" if "v \<in> set vals" for v
    using bounds [OF that] by (intro coarse_eq) simp_all
  have le: "y \<le> 0" if "y \<in> coarse_F ` set vals" for y
    using that by (auto simp: coarse_F_def)
  have "vals ! 1 = 3 / 10 + ((1 - 1 / 10 ^ 10) - 3 / 10) / 999"
    using np_linspace_nth [of 1 1000 "3 / 10" "1 - 1 / 10 ^ 10"] by (simp add: vals_def)
  then have "coarse_F (vals ! 1) = 0"
    by (simp add: coarse_F_def)
  moreover have "vals ! 1 \<in> set vals"
    by (rule nth_mem) (simp add: vals_def np_linspace_length)
  ultimately have "0 \<in> coarse_F ` set vals"
    by (metis imageI)
  with le have "Max (coarse_F ` set vals) = 0"
    by (intro Max_eqI) simp_all
  with grid_scan_Inr [of "3 / 10" "1 - 1 / 10 ^ 10" "approx_eq coarse_lib 2 16" coarse_F] eq
  show ?thesis
    unfolding vals_def by auto
qed

theorem zero_maximum_unbound_witness:
  "mete_lgsr_approx_pmf coarse_lib 2 16 [] True None = ([], Inl UnboundLocalError)
   \<and> mete_lgsr_approx_pmf coarse_lib 2 16 [7, 9] False (Some 1) = ([], Inl UnboundLocalError)"
proof -
  obtain xmax where
    g: "grid_scan (approx_eq coarse_lib 2 16) (3 / 10) (1 - 1 / 10 ^ 10) = Inr (0, xmax)"
    using coarse_grid_scan by blast
  have s1: "shape_asserts 2 16 [] True = Inr ()"
    by (simp add: shape_asserts_def)
  have s2: "shape_asserts 2 16 [7, 9] False = Inr ()"
    by (simp add: shape_asserts_def)
  show ?thesis
    using zero_maximum_unbound [OF s1 coarse_brentq_raises g, of None]
      zero_maximum_unbound [OF s2 coarse_brentq_raises g, of "Some 1"]
    by simp
qed

text \<open>Bounds on the constraint with the real logarithm.\<close>

lemma sample_lib_fields:
  "math_log sample_lib = ln" "brentq sample_lib = midpoint_brentq"
  by (simp_all add: sample_lib_def)

lemma sample_eq:
  assumes "0 < x" and "x < 1" and "N \<noteq> 0"
  shows "approx_eq sample_lib S N x = Inr (harte_F (real_of_int S / real_of_int N) x)"
proof -
  have l: "ln x < 0"
    using assms(1,2) by (rule ln_less_zero)
  then have q: "0 < - 1 / ln x"
    by (simp add: divide_neg_neg)
  show ?thesis
    using assms(1,3) l q
    by (simp add: approx_eq_def m_log_def py_div_def sample_lib_fields harte_F_def)
qed

lemma ln_lower: "0 < x \<Longrightarrow> 1 - 1 / x \<le> ln x" for x :: real
  using ln_le_minus_one [of "1 / x"] by (simp add: ln_div)

lemma ln_three_tenths: "ln (3 / 10 :: real) < - 1"
proof -
  have "exp 1 * (3 / 10 :: real) < 1"
    using exp_le by simp
  then have "(3 / 10 :: real) < exp (- 1)"
    by (simp add: exp_minus field_simps)
  then have "ln (3 / 10 :: real) < ln (exp (- 1))"
    by (subst ln_less_cancel_iff) simp_all
  then show ?thesis by simp
qed

lemma harte_F_start: 
  assumes "0 \<le> c"
  shows "harte_F c (3 / 10) < 0"
proof -
  define b where "b = - ln (3 / 10 :: real)"
  have b: "1 < b"
    using ln_three_tenths by (simp add: b_def)
  then have "ln (1 / b) < 0"
    by (intro ln_less_zero) simp_all
  with b have "b * ln (1 / b) < 0"
    by (simp add: mult_pos_neg)
  moreover have "harte_F c (3 / 10) = b * ln (1 / b) - c"
    by (simp add: harte_F_def b_def)
  ultimately show ?thesis
    using assms by simp
qed

lemma small_entropy:
  fixes b :: real
  assumes "0 < b"
  shows "b * ln (1 / b) \<le> 1 / 100 + 98 * b"
proof -
  have "ln (1 / b) = ln (100 * (1 / (100 * b)))"
    using assms by simp
  also have "\<dots> = ln 100 + ln (1 / (100 * b))"
    using assms by (intro ln_mult_pos) simp_all
  also have "\<dots> \<le> (100 - 1) + (1 / (100 * b) - 1)"
    using assms by (intro add_mono ln_le_minus_one) simp_all
  finally have "ln (1 / b) \<le> 98 + 1 / (100 * b)"
    by simp
  then have "b * ln (1 / b) \<le> b * (98 + 1 / (100 * b))"
    using assms by (intro mult_left_mono) simp_all
  also have "\<dots> = 1 / 100 + 98 * b"
    using assms by (simp add: algebra_simps)
  finally show ?thesis .
qed

lemma harte_F_stop:
  assumes "1 / 50 \<le> c"
  shows "harte_F c (1 - 1 / 10 ^ 10) < 0"
proof -
  define x :: real where "x = 1 - 1 / 10 ^ 10"
  define b where "b = - ln x"
  have x: "0 < x" "x < 1"
    by (simp_all add: x_def)
  have b0: "0 < b"
    using ln_less_zero [OF x] by (simp add: b_def)
  have "1 - 1 / x \<le> ln x"
    using x(1) by (rule ln_lower)
  then have "b \<le> 1 / x - 1"
    by (simp add: b_def)
  also have "\<dots> \<le> 1 / 10 ^ 9"
    by (simp add: x_def)
  finally have b1: "b \<le> 1 / 10 ^ 9" .
  have "b * ln (1 / b) \<le> 1 / 100 + 98 * b"
    using b0 by (rule small_entropy)
  also have "\<dots> < 1 / 50"
    using b1 by simp
  finally have "b * ln (1 / b) < c"
    using assms by simp
  moreover have "harte_F c x = b * ln (1 / b) - c"
    by (simp add: harte_F_def b_def)
  ultimately show ?thesis
    by (simp add: x_def)
qed

lemma harte_F_middle:
  assumes "29 / 50 \<le> x" and "x \<le> 3 / 4" and "c \<le> 1 / 20"
  shows "0 < harte_F c x"
proof -
  define b where "b = - ln x"
  have x0: "0 < x"
    using assms(1) by simp
  have "ln x \<le> x - 1"
    using x0 by (rule ln_le_minus_one)
  then have lo: "1 / 4 \<le> b"
    using assms(2) by (simp add: b_def)
  have "1 / x \<le> 50 / 29"
    using assms(1) x0 by (simp add: field_simps)
  moreover have "1 - 1 / x \<le> ln x"
    using x0 by (rule ln_lower)
  ultimately have hi: "b \<le> 3 / 4"
    by (simp add: b_def)
  have "1 - 1 / (1 / b) \<le> ln (1 / b)"
    using lo by (intro ln_lower) simp
  then have "1 / 4 \<le> ln (1 / b)"
    using hi by simp
  then have "1 / 4 * (1 / 4) \<le> b * ln (1 / b)"
    using lo by (intro mult_mono) simp_all
  moreover have "harte_F c x = b * ln (1 / b) - c"
    by (simp add: harte_F_def b_def)
  ultimately show ?thesis
    using assms(3) by simp
qed

lemma two_roots_result:
  assumes "shape_asserts S N abundances pmf_ret = Inr ()"
    and "brentq L (approx_eq L S N) (3 / 10) (1 - 1 / 10 ^ 10) = Inl ValueError"
    and "grid_scan (approx_eq L S N) (3 / 10) (1 - 1 / 10 ^ 10) = Inr (ymax, xmax)"
    and "0 < ymax"
  shows "mete_lgsr_approx_pmf L S N abundances pmf_ret root_arg =
     ([more_than_one],
      (let r = (case root_arg of None \<Rightarrow> 2 | Some r \<Rightarrow> r) in
       if r = 1 then
         bind_result (brentq L (approx_eq L S N) (3 / 10) xmax)
           (\<lambda>x. pmf_of_root L N abundances pmf_ret (Some x))
       else if r = 2 then
         bind_result (brentq L (approx_eq L S N) xmax (1 - 1 / 10 ^ 10))
           (\<lambda>x. pmf_of_root L N abundances pmf_ret (Some x))
       else Inl UnboundLocalError))"
proof -
  define r :: int where "r = (case root_arg of None \<Rightarrow> 2 | Some r \<Rightarrow> r)"
  have f: "find_root L S N r =
      ([more_than_one], select_root L (approx_eq L S N) (3 / 10) (1 - 1 / 10 ^ 10) xmax r)"
    using find_root_fallback [OF assms(2,3), of r] assms(4) by simp
  have "mete_lgsr_approx_pmf L S N abundances pmf_ret root_arg =
      (case find_root L S N r of
         (out, Inl e) \<Rightarrow> (out, Inl e)
       | (out, Inr xo) \<Rightarrow> (out, pmf_of_root L N abundances pmf_ret xo))"
    using assms(1) by (simp add: mete_lgsr_approx_pmf_def r_def Let_def)
  also have "\<dots> = ([more_than_one],
       if r = 1 then
         bind_result (brentq L (approx_eq L S N) (3 / 10) xmax)
           (\<lambda>x. pmf_of_root L N abundances pmf_ret (Some x))
       else if r = 2 then
         bind_result (brentq L (approx_eq L S N) xmax (1 - 1 / 10 ^ 10))
           (\<lambda>x. pmf_of_root L N abundances pmf_ret (Some x))
       else Inl UnboundLocalError)"
    unfolding f select_root_cases
    by (simp add: bind_result_def pmf_of_root_def split: sum.splits)
  finally show ?thesis
    by (simp add: r_def Let_def)
qed

text \<open>
  C1, amended. On a call that passes the assertions, when the first \<open>brentq\<close> raises
  \<^verbatim>\<open>ValueError\<close> and the scan's maximum is positive, the function prints its warning
  and takes the root that the selector names: selector 1 the root of the bracket from
  \<open>start\<close> to \<open>xmax\<close>, selector 2 the root of the bracket from \<open>xmax\<close> to \<open>stop\<close>.
  A call that leaves the selector out is the call with selector 2.
\<close>

theorem root_selector_decides:
  assumes "shape_asserts S N abundances pmf_ret = Inr ()"
    and "brentq L (approx_eq L S N) (3 / 10) (1 - 1 / 10 ^ 10) = Inl ValueError"
    and "grid_scan (approx_eq L S N) (3 / 10) (1 - 1 / 10 ^ 10) = Inr (ymax, xmax)"
    and "0 < ymax"
  shows "mete_lgsr_approx_pmf L S N abundances pmf_ret (Some 1) =
           ([more_than_one],
            bind_result (brentq L (approx_eq L S N) (3 / 10) xmax)
              (\<lambda>x. pmf_of_root L N abundances pmf_ret (Some x)))
       \<and> mete_lgsr_approx_pmf L S N abundances pmf_ret (Some 2) =
           ([more_than_one],
            bind_result (brentq L (approx_eq L S N) xmax (1 - 1 / 10 ^ 10))
              (\<lambda>x. pmf_of_root L N abundances pmf_ret (Some x)))
       \<and> mete_lgsr_approx_pmf L S N abundances pmf_ret None =
           mete_lgsr_approx_pmf L S N abundances pmf_ret (Some 2)"
  using two_roots_result [OF assms, of "Some 1"] two_roots_result [OF assms, of "Some 2"]
    two_roots_result [OF assms, of None]
  by simp

text \<open>A selector other than 1 and 2 assigns no root at all.\<close>

lemma other_selector_unbound:
  assumes "shape_asserts S N abundances pmf_ret = Inr ()"
    and "brentq L (approx_eq L S N) (3 / 10) (1 - 1 / 10 ^ 10) = Inl ValueError"
    and "grid_scan (approx_eq L S N) (3 / 10) (1 - 1 / 10 ^ 10) = Inr (ymax, xmax)"
    and "0 < ymax" and "r \<noteq> 1" and "r \<noteq> 2"
  shows "mete_lgsr_approx_pmf L S N abundances pmf_ret (Some r) =
           ([more_than_one], Inl UnboundLocalError)"
  using two_roots_result [OF assms(1-4), of "Some r"] assms(5,6) by simp

text \<open>The call \<open>S = 2\<close>, \<open>N = 100\<close> on the sample library.\<close>

lemma sample_eq_2_100:
  assumes "0 < x" and "x < 1"
  shows "approx_eq sample_lib 2 100 x = Inr (harte_F (1 / 50) x)"
  using sample_eq [OF assms, of 100 2] by simp

lemma sample_brentq_raises:
  "brentq sample_lib (approx_eq sample_lib 2 100) (3 / 10) (1 - 1 / 10 ^ 10) = Inl ValueError"
proof -
  have a: "approx_eq sample_lib 2 100 (3 / 10) = Inr (harte_F (1 / 50) (3 / 10))"
    by (rule sample_eq_2_100) simp_all
  have b: "approx_eq sample_lib 2 100 (1 - 1 / 10 ^ 10) = Inr (harte_F (1 / 50) (1 - 1 / 10 ^ 10))"
    by (rule sample_eq_2_100) simp_all
  have "harte_F (1 / 50) (3 / 10) < 0"
    by (rule harte_F_start) simp
  moreover have "harte_F (1 / 50) (1 - 1 / 10 ^ 10) < 0"
    by (rule harte_F_stop) simp
  ultimately have "0 < harte_F (1 / 50) (3 / 10) * harte_F (1 / 50) (1 - 1 / 10 ^ 10)"
    by (rule mult_neg_neg)
  then show ?thesis
    by (simp only: sample_lib_fields midpoint_brentq_def a b bind_result_simps if_True)
qed

lemma sample_grid_scan:
  "\<exists>ymax xmax. grid_scan (approx_eq sample_lib 2 100) (3 / 10) (1 - 1 / 10 ^ 10)
                   = Inr (ymax, xmax)
     \<and> 0 < ymax \<and> 3 / 10 \<le> xmax \<and> xmax \<le> 1 - 1 / 10 ^ 10
     \<and> harte_F (1 / 50) xmax = ymax"
proof -
  define vals where "vals = np_linspace (3 / 10) (1 - 1 / 10 ^ 10) 1000"
  have bounds: "3 / 10 \<le> v \<and> v \<le> 1 - 1 / 10 ^ 10" if "v \<in> set vals" for v
    using np_linspace_bounds [of "3 / 10" "1 - 1 / 10 ^ 10" 1000 v] that
    by (simp add: vals_def)
  have eq: "approx_eq sample_lib 2 100 v = Inr (harte_F (1 / 50) v)" if "v \<in> set vals" for v
    using bounds [OF that] by (intro sample_eq_2_100) simp_all
  obtain i where i: "i < 1000"
    "grid_scan (approx_eq sample_lib 2 100) (3 / 10) (1 - 1 / 10 ^ 10)
       = Inr (Max (harte_F (1 / 50) ` set vals), vals ! i)"
    "harte_F (1 / 50) (vals ! i) = Max (harte_F (1 / 50) ` set vals)"
    using grid_scan_Inr
      [of "3 / 10" "1 - 1 / 10 ^ 10" "approx_eq sample_lib 2 100" "harte_F (1 / 50)"] eq
    unfolding vals_def by blast
  have "vals ! 500 = 3 / 10 + 500 * (((1 - 1 / 10 ^ 10) - 3 / 10) / 999)"
    using np_linspace_nth [of 500 1000 "3 / 10" "1 - 1 / 10 ^ 10"] by (simp add: vals_def)
  then have "29 / 50 \<le> vals ! 500" "vals ! 500 \<le> 3 / 4"
    by simp_all
  then have "0 < harte_F (1 / 50) (vals ! 500)"
    by (rule harte_F_middle) simp
  moreover have "vals ! 500 \<in> set vals"
    by (rule nth_mem) (simp add: vals_def np_linspace_length)
  then have "harte_F (1 / 50) (vals ! 500) \<le> Max (harte_F (1 / 50) ` set vals)"
    by (intro Max_ge) simp_all
  ultimately have pos: "0 < Max (harte_F (1 / 50) ` set vals)"
    by simp
  have "vals ! i \<in> set vals"
    by (rule nth_mem) (simp add: vals_def np_linspace_length i(1))
  from bounds [OF this] i(2,3) pos show ?thesis
    by blast
qed

lemma sample_upper_root:
  assumes "3 / 10 \<le> xmax" and "xmax \<le> 1 - 1 / 10 ^ 10" and "0 < harte_F (1 / 50) xmax"
  shows "brentq sample_lib (approx_eq sample_lib 2 100) xmax (1 - 1 / 10 ^ 10)
           = Inr ((xmax + (1 - 1 / 10 ^ 10)) / 2)"
proof -
  have a: "approx_eq sample_lib 2 100 xmax = Inr (harte_F (1 / 50) xmax)"
    using assms(1,2) by (intro sample_eq_2_100) simp_all
  have b: "approx_eq sample_lib 2 100 (1 - 1 / 10 ^ 10) = Inr (harte_F (1 / 50) (1 - 1 / 10 ^ 10))"
    by (rule sample_eq_2_100) simp_all
  have "harte_F (1 / 50) (1 - 1 / 10 ^ 10) < 0"
    by (rule harte_F_stop) simp
  with assms(3) have "harte_F (1 / 50) xmax * harte_F (1 / 50) (1 - 1 / 10 ^ 10) < 0"
    by (rule mult_pos_neg)
  then have "\<not> 0 < harte_F (1 / 50) xmax * harte_F (1 / 50) (1 - 1 / 10 ^ 10)"
    by simp
  then show ?thesis
    by (simp only: sample_lib_fields midpoint_brentq_def a b bind_result_simps if_False)
qed

lemma sample_pmf_of_root:
  assumes "3 / 5 \<le> x" and "x < 1"
  shows "\<not> isl (pmf_of_root sample_lib N abundances pmf_ret (Some x))"
proof -
  have x0: "0 < x"
    using assms(1) by simp
  have l0: "ln x < 0"
    using x0 assms(2) by (rule ln_less_zero)
  have "1 / x \<le> 5 / 3"
    using assms(1) x0 by (simp add: field_simps)
  moreover have "1 - 1 / x \<le> ln x"
    using x0 by (rule ln_lower)
  ultimately have l1: "- 1 < ln x"
    by simp
  have g: "1 < - 1 / ln x"
    using l0 l1 by (simp add: field_simps)
  then have "0 < ln (- 1 / ln x)"
    by (rule ln_gt_zero)
  then show ?thesis
    using x0 l0 g
    by (simp add: pmf_of_root_def m_log_def py_div_def sample_lib_fields Let_def)
qed

theorem root_selector_decides_witness:
  "fst (mete_lgsr_approx_pmf sample_lib 2 100 [] True (Some 1)) = [more_than_one]
   \<and> fst (mete_lgsr_approx_pmf sample_lib 2 100 [] True (Some 2)) = [more_than_one]
   \<and> mete_lgsr_approx_pmf sample_lib 2 100 [] True None
      = mete_lgsr_approx_pmf sample_lib 2 100 [] True (Some 2)"
proof -
  obtain ymax xmax where
    g: "grid_scan (approx_eq sample_lib 2 100) (3 / 10) (1 - 1 / 10 ^ 10) = Inr (ymax, xmax)"
    and pos: "0 < ymax"
    using sample_grid_scan by blast
  have s: "shape_asserts 2 100 [] True = Inr ()"
    by (simp add: shape_asserts_def)
  show ?thesis
    using root_selector_decides [OF s sample_brentq_raises g pos] by simp
qed

text \<open>
  C1, as stated, fails: the caller need not name a root. For \<open>S = 2\<close> and \<open>N = 100\<close>
  the first \<open>brentq\<close> raises, the scan's maximum is positive, and the call without a
  selector prints the warning and returns a pmf (that of the upper root).
\<close>

theorem default_root_is_taken:
  "brentq sample_lib (approx_eq sample_lib 2 100) (3 / 10) (1 - 1 / 10 ^ 10) = Inl ValueError
   \<and> fst (mete_lgsr_approx_pmf sample_lib 2 100 [] True None) = [more_than_one]
   \<and> \<not> isl (snd (mete_lgsr_approx_pmf sample_lib 2 100 [] True None))"
proof -
  obtain ymax xmax where
    g: "grid_scan (approx_eq sample_lib 2 100) (3 / 10) (1 - 1 / 10 ^ 10) = Inr (ymax, xmax)"
    and pos: "0 < ymax" and lo: "3 / 10 \<le> xmax" and hi: "xmax \<le> 1 - 1 / 10 ^ 10"
    and f: "harte_F (1 / 50) xmax = ymax"
    using sample_grid_scan by blast
  have s: "shape_asserts 2 100 [] True = Inr ()"
    by (simp add: shape_asserts_def)
  define x where "x = (xmax + (1 - 1 / 10 ^ 10)) / 2"
  have up: "brentq sample_lib (approx_eq sample_lib 2 100) xmax (1 - 1 / 10 ^ 10) = Inr x"
    unfolding x_def using lo hi pos f by (intro sample_upper_root) simp_all
  have "3 / 5 \<le> x" "x < 1"
    using lo hi by (simp_all add: x_def)
  then have ok: "\<not> isl (pmf_of_root sample_lib 100 [] True (Some x))"
    by (rule sample_pmf_of_root)
  have "mete_lgsr_approx_pmf sample_lib 2 100 [] True None =
      ([more_than_one], pmf_of_root sample_lib 100 [] True (Some x))"
    using two_roots_result [OF s sample_brentq_raises g pos, of None]
    by (simp only: up bind_result_simps option.case Let_def) simp
  with ok sample_brentq_raises show ?thesis
    by simp
qed

section \<open>The empirical distribution function\<close>

lemma assign_at_length: "length (assign_at a loc v) = length a"
  unfolding assign_at_def by (induction loc arbitrary: a) simp_all

lemma assign_at_nth:
  assumes "j < length a"
  shows "assign_at a loc v ! j = (if j \<in> set loc then v else a ! j)"
  using assms unfolding assign_at_def
proof (induction loc arbitrary: a)
  case Nil
  then show ?case by simp
next
  case (Cons k loc)
  have "fold (\<lambda>j c. c[j := v]) loc (a[k := v]) ! j
        = (if j \<in> set loc then v else a[k := v] ! j)"
    using Cons.IH [of "a[k := v]"] Cons.prems by simp
  then show ?case
    using Cons.prems by (auto simp: nth_list_update)
qed

lemma np_where_eq_set: "set (np_where_eq i a) = {j. j < length a \<and> a ! j = i}"
  by (auto simp: np_where_eq_def)

lemma np_where_eq_length: "length (np_where_eq i a) = length (filter (\<lambda>y. i = y) a)"
proof -
  have "length (filter (\<lambda>y. i = y) a)
        = length (filter (\<lambda>y. i = y) (map (\<lambda>j. a ! j) [0..<length a]))"
    by (simp only: map_nth)
  also have "\<dots> = length (filter (\<lambda>j. i = a ! j) [0..<length a])"
    by (simp add: filter_map comp_def)
  finally show ?thesis
    by (simp add: np_where_eq_def)
qed

lemma empirical_cdf_loop_inv:
  assumes "sorted us" and "distinct us"
    and "\<And>y. y \<in> set emp \<Longrightarrow> y \<in> set us \<or> (\<forall>u \<in> set us. y < u)"
    and "count = length (filter (\<lambda>y. y \<notin> set us) emp)"
    and "length cdf = length emp"
  shows "length (empirical_cdf_loop emp leng us count cdf) = length emp
       \<and> (\<forall>j < length emp.
            empirical_cdf_loop emp leng us count cdf ! j =
              (if emp ! j \<in> set us
               then real (length (filter (\<lambda>y. y \<le> emp ! j) emp)) / real leng
               else cdf ! j))"
  using assms
proof (induction us arbitrary: count cdf)
  case Nil
  then show ?case by simp
next
  case (Cons i us)
  define loc where "loc = np_where_eq i emp"
  define count' where "count' = count + length loc"
  define cdf' where "cdf' = assign_at cdf loc (real count' / real leng)"
  have run: "empirical_cdf_loop emp leng (i # us) count cdf
             = empirical_cdf_loop emp leng us count' cdf'"
    by (simp add: loc_def count'_def cdf'_def Let_def)
  have sorted_us: "sorted us" and distinct_us: "distinct us"
    and fresh: "i \<notin> set us" and above: "\<And>u. u \<in> set us \<Longrightarrow> i < u"
    using Cons.prems(1,2) by (auto simp: less_le)
  have cover: "y \<in> set us \<or> (\<forall>u \<in> set us. y < u)" if "y \<in> set emp" for y
    using Cons.prems(3) [OF that] above by force
  have done_iff: "y \<notin> set us \<longleftrightarrow> y \<le> i" if "y \<in> set emp" for y
  proof
    assume "y \<notin> set us"
    with Cons.prems(3) [OF that] show "y \<le> i" by auto
  next
    assume "y \<le> i"
    show "y \<notin> set us"
    proof
      assume "y \<in> set us"
      then have "i < y" by (rule above)
      with \<open>y \<le> i\<close> show False by simp
    qed
  qed
  have "length (filter (\<lambda>y. y \<notin> set us) ys)
        = length (filter (\<lambda>y. y \<notin> set (i # us)) ys) + length (filter (\<lambda>y. i = y) ys)"
    for ys
    using fresh by (induction ys) auto
  from this [of emp]
  have count': "count' = length (filter (\<lambda>y. y \<notin> set us) emp)"
    by (simp add: count'_def loc_def np_where_eq_length Cons.prems(4))
  have "filter (\<lambda>y. y \<notin> set us) emp = filter (\<lambda>y. y \<le> i) emp"
    by (rule filter_cong) (simp_all add: done_iff)
  with count' have count_le: "count' = length (filter (\<lambda>y. y \<le> i) emp)"
    by simp
  have len': "length cdf' = length emp"
    by (simp add: cdf'_def assign_at_length Cons.prems(5))
  have cdf'_nth: "cdf' ! j = (if emp ! j = i then real count' / real leng else cdf ! j)"
    if "j < length emp" for j
    using that assign_at_nth [of j cdf loc] Cons.prems(5)
    by (simp add: cdf'_def loc_def np_where_eq_set)
  from Cons.IH [OF sorted_us distinct_us cover count' len']
  have len: "length (empirical_cdf_loop emp leng us count' cdf') = length emp"
    and nth: "\<And>j. j < length emp \<Longrightarrow>
        empirical_cdf_loop emp leng us count' cdf' ! j =
          (if emp ! j \<in> set us
           then real (length (filter (\<lambda>y. y \<le> emp ! j) emp)) / real leng
           else cdf' ! j)"
    by simp_all
  have "empirical_cdf_loop emp leng us count' cdf' ! j =
          (if emp ! j \<in> set (i # us)
           then real (length (filter (\<lambda>y. y \<le> emp ! j) emp)) / real leng
           else cdf ! j)"
    if "j < length emp" for j
    using nth [OF that] cdf'_nth [OF that] fresh count_le by auto
  with len show ?case
    unfolding run by blast
qed

lemma np_unique_props:
  "sorted (np_unique xs)" "distinct (np_unique xs)" "set (np_unique xs) = set xs"
  by (simp_all add: np_unique_def)

lemma empirical_cdf_values:
  fixes arg :: pyarg
  defines "xs \<equiv> cnvrt_to_arrays arg"
  shows "length (empirical_cdf uninit arg) = length xs"
    and "j < length xs \<Longrightarrow>
           empirical_cdf uninit arg ! j
             = real (length (filter (\<lambda>y. y \<le> xs ! j) xs)) / real (length xs)"
proof -
  have count0: "0 = length (filter (\<lambda>y. y \<notin> set (np_unique xs)) xs)"
    by (simp add: np_unique_props)
  have cover: "y \<in> set (np_unique xs) \<or> (\<forall>u \<in> set (np_unique xs). y < u)"
    if "y \<in> set xs" for y
    using that by (simp add: np_unique_props)
  have len0: "length (map uninit [0..<length xs]) = length xs"
    by simp
  note inv = empirical_cdf_loop_inv
    [OF np_unique_props(1,2) cover count0 len0, of "length xs"]
  have run: "empirical_cdf uninit arg =
       empirical_cdf_loop xs (length xs) (np_unique xs) 0 (map uninit [0..<length xs])"
    by (simp add: empirical_cdf_def Let_def xs_def)
  show "length (empirical_cdf uninit arg) = length xs"
    unfolding run using inv by simp
  show "empirical_cdf uninit arg ! j
             = real (length (filter (\<lambda>y. y \<le> xs ! j) xs)) / real (length xs)"
    if "j < length xs"
    unfolding run using inv that by (simp add: np_unique_props)
qed

text \<open>
  C5. For a non-empty input the result of \<open>empirical_cdf\<close> has the length of the
  input, and its entry \<open>j\<close> is the number of observations that are at most the
  observation \<open>j\<close>, divided by the number of observations, whatever \<^verbatim>\<open>np.empty\<close>
  left in the array. Equal observations get equal entries. The loop runs once per
  distinct value: \<open>np_unique\<close> has no duplicates and exactly the values of the input,
  and each pass writes one value to all positions of its value.
\<close>

theorem empirical_cdf_fraction:
  assumes "cnvrt_to_arrays arg \<noteq> []"
  shows "length (empirical_cdf uninit arg) = length (cnvrt_to_arrays arg)
       \<and> (\<forall>j < length (cnvrt_to_arrays arg).
            empirical_cdf uninit arg ! j =
              real (length (filter (\<lambda>y. y \<le> cnvrt_to_arrays arg ! j) (cnvrt_to_arrays arg)))
                / real (length (cnvrt_to_arrays arg)))
       \<and> (\<forall>j < length (cnvrt_to_arrays arg). \<forall>k < length (cnvrt_to_arrays arg).
            cnvrt_to_arrays arg ! j = cnvrt_to_arrays arg ! k
              \<longrightarrow> empirical_cdf uninit arg ! j = empirical_cdf uninit arg ! k)
       \<and> distinct (np_unique (cnvrt_to_arrays arg))
       \<and> set (np_unique (cnvrt_to_arrays arg)) = set (cnvrt_to_arrays arg)"
  using empirical_cdf_values [where uninit = uninit and arg = arg]
  by (simp add: np_unique_props)

theorem empirical_cdf_fraction_witness:
  "length (empirical_cdf (\<lambda>j. 7) (Seq [3, 1, 3])) = 3
   \<and> empirical_cdf (\<lambda>j. 7) (Seq [3, 1, 3]) ! 0 = 1
   \<and> empirical_cdf (\<lambda>j. 7) (Seq [3, 1, 3]) ! 1 = 1 / 3
   \<and> empirical_cdf (\<lambda>j. 7) (Seq [3, 1, 3]) ! 2 = 1"
proof -
  have ne: "cnvrt_to_arrays (Seq [3, 1, 3]) \<noteq> []"
    by simp
  from empirical_cdf_fraction [OF ne, of "\<lambda>j. 7"]
  have len: "length (empirical_cdf (\<lambda>j. 7) (Seq [3, 1, 3])) = 3"
    and nth: "\<forall>j < 3. empirical_cdf (\<lambda>j. 7) (Seq [3, 1, 3]) ! j =
              real (length (filter (\<lambda>y. y \<le> [3, 1, 3 :: real] ! j) [3, 1, 3])) / 3"
    by simp_all
  from nth [rule_format, of 0] nth [rule_format, of 1] nth [rule_format, of 2]
  have "empirical_cdf (\<lambda>j. 7) (Seq [3, 1, 3]) ! 0 = 1"
    "empirical_cdf (\<lambda>j. 7) (Seq [3, 1, 3]) ! 1 = 1 / 3"
    "empirical_cdf (\<lambda>j. 7) (Seq [3, 1, 3]) ! 2 = 1"
    by simp_all
  with len show ?thesis by simp
qed

text \<open>The same example, run through the definitions.\<close>

lemma empirical_cdf_example:
  "empirical_cdf (\<lambda>j. 7) (Seq [3, 1, 3]) = [1, 1 / 3, 1]"
  by (simp add: empirical_cdf_def np_unique_def np_where_eq_def assign_at_def Let_def
      upt_conv_Cons)

section \<open>The rank-abundance curve\<close>







lemma np_arange_example: "np_arange (1 / 4) (5 / 4) (1 / 2) = [1 / 4, 3 / 4]"
  by (simp add: np_arange_def upt_conv_Cons)

text \<open>The same example, run through the definitions.\<close>

lemma make_rank_abund_example:
  "make_rank_abund [1 / 2, 1 / 4, 1 / 4] 2 = Inr [1, 3]"
proof -
  have "rank_loop [1 / 4, 3 / 4] [0, 0] [0, 1 / 2, 3 / 4, 1] = [1, 3]"
    by simp
  then show ?thesis
    by (simp add: make_rank_abund_def py_div_def bind_result_def np_cumsum_def
        np_arange_example numeral_2_eq_2)
qed

end
